theory Spec2Isabelle
  imports Main "HOL-Library.Sublist"
begin

section \<open>Python text primitives used by function\_app.py\<close>

text \<open>
  A Python \<open>str\<close> is modelled as a \<open>string\<close>, one \<open>char\<close> per code point, so the model
  covers texts whose code points are below 256. \<open>isspace\<close> lists the code points below
  256 that \<open>str.strip()\<close> removes. \<open>upper_char\<close> is \<open>str.upper()\<close> on ASCII; on the
  other code points below 256 Python answers a code point outside ASCII (or \<open>SS\<close> for
  U+00DF), which never helps to spell the ASCII word the guard looks for, so the model
  leaves them alone.
\<close>

definition isspace :: "char \<Rightarrow> bool" where
  "isspace c = (c \<in> set [CHR 0x09, CHR 0x0A, CHR 0x0B, CHR 0x0C, CHR 0x0D,
                           CHR 0x1C, CHR 0x1D, CHR 0x1E, CHR 0x1F, CHR 0x20,
                           CHR 0x85, CHR 0xA0])"

definition strip :: "string \<Rightarrow> string" where
  "strip s = rev (dropWhile isspace (rev (dropWhile isspace s)))"

definition upper_char :: "char \<Rightarrow> char" where
  "upper_char c =
     (case map_of (zip ''abcdefghijklmnopqrstuvwxyz'' ''ABCDEFGHIJKLMNOPQRSTUVWXYZ'') c of
        Some u \<Rightarrow> u
      | None \<Rightarrow> c)"

definition upper :: "string \<Rightarrow> string" where
  "upper s = map upper_char s"

definition startswith :: "string \<Rightarrow> string \<Rightarrow> bool" where
  "startswith s p = prefix p s"

text \<open>\<open>str(i)\<close> for an index or an integer: decimal digits, with a sign when negative.\<close>

fun str_nat :: "nat \<Rightarrow> string" where
  "str_nat n =
     (if n < 10 then [''0123456789'' ! n]
      else str_nat (n div 10) @ [''0123456789'' ! (n mod 10)])"

declare str_nat.simps [simp del]

definition str_int :: "int \<Rightarrow> string" where
  "str_int i = (if i < 0 then CHR ''-'' # str_nat (nat (- i)) else str_nat (nat i))"

section \<open>The output sanitizer of generate\_sql\_query\<close>

text \<open>
  \<open>re.sub(r'```sql\n?', '', s)\<close> and \<open>re.sub(r'```\n?', '', s)\<close>: the text is scanned from
  the left; where the literal fence stands it is dropped together with one newline
  right after it (the greedy \<open>\n?\<close>), and the scan goes on behind the match; any other
  character is kept.
\<close>

definition optional_newline :: "string \<Rightarrow> string" where
  "optional_newline s =
     (case s of [] \<Rightarrow> [] | c # cs \<Rightarrow> if c = CHR 0x0A then cs else c # cs)"

function sub_sql_fence :: "string \<Rightarrow> string" where
  "sub_sql_fence [] = []"
| "sub_sql_fence (c # cs) =
     (if prefix ''```sql'' (c # cs)
      then sub_sql_fence (optional_newline (drop 6 (c # cs)))
      else c # sub_sql_fence cs)"
  by pat_completeness auto
termination
  by (relation "measure length")
     (auto simp: optional_newline_def prefix_def split: list.splits)

function sub_fence :: "string \<Rightarrow> string" where
  "sub_fence [] = []"
| "sub_fence (c # cs) =
     (if prefix ''```'' (c # cs)
      then sub_fence (optional_newline (drop 3 (c # cs)))
      else c # sub_fence cs)"
  by pat_completeness auto
termination
  by (relation "measure length")
     (auto simp: optional_newline_def prefix_def split: list.splits)

text \<open>Lines 244 to 249: \<open>content.strip()\<close>, the two substitutions, \<open>strip()\<close> again.\<close>

definition sanitize :: "string \<Rightarrow> string" where
  "sanitize content = strip (sub_fence (sub_sql_fence (strip content)))"

section \<open>The read-only guard of execute\_query\<close>

text \<open>Line 275: \<open>sql_query.strip().upper().startswith('SELECT')\<close>.\<close>

definition select_guard :: "string \<Rightarrow> bool" where
  "select_guard sql_query = startswith (upper (strip sql_query)) ''SELECT''"

text \<open>
  The specification's wording, for comparison with the guard: the first non-whitespace
  token of a text is its longest run of non-whitespace characters after the leading
  whitespace.
\<close>

definition leading_token :: "string \<Rightarrow> string" where
  "leading_token s = takeWhile (\<lambda>c. \<not> isspace c) (dropWhile isspace s)"

definition spec_guard :: "string \<Rightarrow> bool" where
  "spec_guard s = (upper (leading_token s) = ''SELECT'')"

section \<open>Values, exceptions, collaborators and processor state\<close>

text \<open>
  A JSON value held in a record. A value that is neither null, a boolean, an integer nor
  a string (a float, an array, an object) is represented by the text \<open>str()\<close> gives for it.
\<close>

datatype pyval = PNone | PBool bool | PInt int | PStr string | POther string

fun py_str :: "pyval \<Rightarrow> string" where
  "py_str PNone = ''None''"
| "py_str (PBool b) = (if b then ''True'' else ''False'')"
| "py_str (PInt i) = str_int i"
| "py_str (PStr s) = s"
| "py_str (POther s) = s"

type_synonym document = "string \<rightharpoonup> pyval"

text \<open>
  The exceptions of the code. \<open>ServiceError\<close> stands for whatever an external
  collaborator (the Cosmos DB or Azure OpenAI client, credential acquisition) raises;
  all of them carry the text that \<open>str(e)\<close> returns, a \<open>KeyError\<close> carries its key.
\<close>

datatype error = ValueError string | RuntimeError string | KeyError string | ServiceError string

fun str_error :: "error \<Rightarrow> string" where
  "str_error (ValueError m) = m"
| "str_error (RuntimeError m) = m"
| "str_error (KeyError k) = CHR 0x27 # k @ [CHR 0x27]"
| "str_error (ServiceError m) = m"

text \<open>
  The collaborators and the sources of fresh values, as the code sees them:
  \<^item> \<open>setup_cosmos\<close>, \<open>setup_openai\<close>: the exception raised by \<open>_setup_cosmos_client\<close> and
    \<open>_setup_openai_client\<close>, \<open>None\<close> when they return;
  \<^item> \<open>completion\<close>: for a natural-language query (the prompt is a fixed template around
    it), the exception raised between the chat-completion call and
    \<open>response.choices[0].message.content.strip()\<close>, or the message content;
  \<^item> \<open>query_items\<close>: the exception raised while iterating \<open>container.query_items\<close>, or the
    items;
  \<^item> \<open>create_item\<close>: the exception raised by \<open>container.create_item\<close>, \<open>None\<close> when it
    returns;
  \<^item> \<open>uuid4 i\<close>, \<open>utcnow i\<close>: the texts of \<open>str(uuid.uuid4())\<close> and
    \<open>datetime.utcnow().isoformat()\<close> evaluated while record \<open>i\<close> of a batch is handled;
    \<open>utcnow\<close> at the number of records is the reading taken for the returned summary,
    and \<open>utcnow 0\<close> the one taken for a query outcome.
\<close>

record env =
  setup_cosmos :: "error option"
  setup_openai :: "error option"
  completion :: "string \<Rightarrow> error + string"
  query_items :: "string \<Rightarrow> error + document list"
  create_item :: "document \<Rightarrow> error option"
  uuid4 :: "nat \<Rightarrow> string"
  utcnow :: "nat \<Rightarrow> string"

text \<open>
  The processor: \<open>container\<close> and \<open>openai_client\<close> say whether the attribute is set (not
  \<open>None\<close>). \<open>query_log\<close> lists the queries handed to \<open>container.query_items\<close>, oldest
  first, and \<open>stored\<close> the documents that \<open>container.create_item\<close> accepted.
\<close>

record state =
  initialized :: bool
  container :: bool
  openai_client :: bool
  query_log :: "string list"
  stored :: "document list"

definition new_processor :: state where
  "new_processor =
     \<lparr>initialized = False, container = False, openai_client = False,
      query_log = [], stored = []\<rparr>"

definition ensure_initialized :: "env \<Rightarrow> state \<Rightarrow> error option \<times> state" where
  "ensure_initialized e s =
     (if initialized s then (None, s)
      else (case setup_cosmos e of
              Some x \<Rightarrow> (Some x, s)
            | None \<Rightarrow>
                (let s1 = s\<lparr>container := True\<rparr> in
                 (case setup_openai e of
                    Some x \<Rightarrow> (Some x, s1)
                  | None \<Rightarrow> (None, s1\<lparr>openai_client := True, initialized := True\<rparr>)))))"

section \<open>The query pipeline\<close>

definition generate_sql_query :: "env \<Rightarrow> string \<Rightarrow> state \<Rightarrow> (error + string) \<times> state" where
  "generate_sql_query e natural_language_query s =
     (case ensure_initialized e s of
        (Some x, s1) \<Rightarrow> (Inl x, s1)
      | (None, s1) \<Rightarrow>
          if \<not> openai_client s1
          then (Inl (RuntimeError ''OpenAI client not properly initialized''), s1)
          else (case completion e natural_language_query of
                  Inl x \<Rightarrow> (Inl x, s1)
                | Inr content \<Rightarrow> (Inr (sanitize content), s1)))"

definition execute_query :: "env \<Rightarrow> string \<Rightarrow> state \<Rightarrow> (error + document list) \<times> state" where
  "execute_query e sql_query s =
     (case ensure_initialized e s of
        (Some x, s1) \<Rightarrow> (Inl x, s1)
      | (None, s1) \<Rightarrow>
          if \<not> container s1
          then (Inl (RuntimeError ''Cosmos DB container not properly initialized''), s1)
          else if \<not> select_guard sql_query
          then (Inl (ValueError ''Only SELECT queries are allowed''), s1)
          else (let s2 = s1\<lparr>query_log := query_log s1 @ [sql_query]\<rparr> in
                (case query_items e sql_query of
                   Inl x \<Rightarrow> (Inl x, s2)
                 | Inr items \<Rightarrow> (Inr items, s2))))"

text \<open>
  The dictionary returned by \<open>process_natural_language_query\<close>. The key \<open>error\<close> exists
  only in the dictionary of the \<open>except\<close> branch; \<open>generated_sql\<close> and \<open>results\<close> are
  \<open>None\<close> there.
\<close>

record outcome =
  natural_language_query :: string
  generated_sql :: "string option"
  results :: "document list option"
  row_count :: nat
  success :: bool
  error :: "string option"
  timestamp :: string

definition failure :: "env \<Rightarrow> string \<Rightarrow> error \<Rightarrow> outcome" where
  "failure e query x =
     \<lparr>natural_language_query = query, generated_sql = None, results = None,
      row_count = 0, success = False, error = Some (str_error x),
      timestamp = utcnow e 0\<rparr>"

definition process_natural_language_query :: "env \<Rightarrow> string \<Rightarrow> state \<Rightarrow> outcome \<times> state" where
  "process_natural_language_query e query s =
     (case generate_sql_query e query s of
        (Inl x, s1) \<Rightarrow> (failure e query x, s1)
      | (Inr sql_query, s1) \<Rightarrow>
          (case execute_query e sql_query s1 of
             (Inl x, s2) \<Rightarrow> (failure e query x, s2)
           | (Inr rows, s2) \<Rightarrow>
               (\<lparr>natural_language_query = query, generated_sql = Some sql_query,
                 results = Some rows, row_count = length rows, success = True,
                 error = None, timestamp = utcnow e 0\<rparr>, s2)))"

text \<open>The length of the rows of an outcome, none counting as no row.\<close>

definition rows_length :: "outcome \<Rightarrow> nat" where
  "rows_length out = (case results out of None \<Rightarrow> 0 | Some rows \<Rightarrow> length rows)"

section \<open>The sample-data limit of http\_get\_sample\_data\<close>

text \<open>
  \<open>int(text)\<close> on a query parameter, as CPython computes it for a text of code points
  below 256. Whitespace around the number is skipped: the ASCII whitespace of C (tab,
  newline, vertical tab, form feed, carriage return, space) and the two whitespace code
  points above ASCII, U+0085 and U+00A0, which \<open>int\<close> first turns into spaces; the
  separators U+001C to U+001F, which \<open>str.strip()\<close> removes, are not skipped. One sign
  may lead; the rest is decimal digits, where single underscores may stand between
  digits. A number of more than 640 digits is refused when the interpreter's limit
  \<open>sys.get_int_max_str_digits()\<close> is set (not 0) and the number has more digits than
  the limit; the limit is a setting of the interpreter (4300 unless changed, 0 for no
  limit), so it is a parameter here. \<open>None\<close> is the \<open>ValueError\<close> of \<open>int\<close>.
\<close>

definition int_space :: "char \<Rightarrow> bool" where
  "int_space c = (c \<in> set [CHR 0x09, CHR 0x0A, CHR 0x0B, CHR 0x0C, CHR 0x0D, CHR 0x20,
                             CHR 0x85, CHR 0xA0])"

definition isdigit :: "char \<Rightarrow> bool" where
  "isdigit c = (c \<in> set ''0123456789'')"

definition digit_value :: "char \<Rightarrow> nat" where
  "digit_value c = (case map_of (zip ''0123456789'' [0, 1, 2, 3, 4, 5, 6, 7, 8, 9]) c of
                      Some d \<Rightarrow> d
                    | None \<Rightarrow> 0)"

fun digits_value :: "nat \<Rightarrow> string \<Rightarrow> nat option" where
  "digits_value acc [] = Some acc"
| "digits_value acc (c # cs) =
     (if isdigit c then digits_value (acc * 10 + digit_value c) cs
      else if c = CHR ''_'' \<and> cs \<noteq> [] \<and> isdigit (hd cs) then digits_value acc cs
      else None)"

definition exceeds_digit_limit :: "nat \<Rightarrow> nat \<Rightarrow> bool" where
  "exceeds_digit_limit max_str_digits digits =
     (640 < digits \<and> 0 < max_str_digits \<and> max_str_digits < digits)"

definition unsigned_value :: "nat \<Rightarrow> string \<Rightarrow> nat option" where
  "unsigned_value max_str_digits s =
     (case s of
        [] \<Rightarrow> None
      | c # cs \<Rightarrow>
          if isdigit c
          then (if exceeds_digit_limit max_str_digits (length (filter isdigit (c # cs)))
                then None
                else digits_value 0 (c # cs))
          else None)"

definition py_int :: "nat \<Rightarrow> string \<Rightarrow> int option" where
  "py_int max_str_digits text =
     (case rev (dropWhile int_space (rev (dropWhile int_space text))) of
        [] \<Rightarrow> None
      | c # cs \<Rightarrow>
          if c = CHR ''-'' then map_option (\<lambda>n. - int n) (unsigned_value max_str_digits cs)
          else if c = CHR ''+'' then map_option int (unsigned_value max_str_digits cs)
          else map_option int (unsigned_value max_str_digits (c # cs)))"

text \<open>
  Lines 573 and 574: \<open>limit = int(req.params.get('limit', '10'))\<close>, then
  \<open>limit = min(max(limit, 1), 100)\<close>. \<open>None\<close> is the exception of \<open>int\<close>, which the
  handler answers with status 500.
\<close>

definition effective_limit :: "nat \<Rightarrow> (string \<rightharpoonup> string) \<Rightarrow> int option" where
  "effective_limit max_str_digits params =
     (case py_int max_str_digits (case params ''limit'' of None \<Rightarrow> ''10'' | Some v \<Rightarrow> v) of
        None \<Rightarrow> None
      | Some limit \<Rightarrow> Some (min (max limit 1) 100))"

section \<open>Uploading medical records\<close>

definition required_fields :: "string list" where
  "required_fields = [''MEDCode'', ''Slot'', ''Value'']"

text \<open>\<open>all(field in record for field in ["MEDCode", "Slot", "Value"])\<close>\<close>

definition has_required_fields :: "document \<Rightarrow> bool" where
  "has_required_fields record = list_all (\<lambda>field. record field \<noteq> None) required_fields"

text \<open>\<open>record[key]\<close>, which raises \<open>KeyError\<close> for a key the dictionary lacks.\<close>

definition getitem :: "document \<Rightarrow> string \<Rightarrow> error + pyval" where
  "getitem record key = (case record key of None \<Rightarrow> Inl (KeyError key) | Some v \<Rightarrow> Inr v)"

text \<open>The dictionary literal of lines 388 to 394, for record \<open>i\<close> of the batch.\<close>

definition build_document :: "env \<Rightarrow> nat \<Rightarrow> document \<Rightarrow> error + document" where
  "build_document e i record =
     (case getitem record ''MEDCode'' of
        Inl x \<Rightarrow> Inl x
      | Inr medcode \<Rightarrow>
          (case getitem record ''Slot'' of
             Inl x \<Rightarrow> Inl x
           | Inr slot \<Rightarrow>
               (case getitem record ''Value'' of
                  Inl x \<Rightarrow> Inl x
                | Inr v \<Rightarrow>
                    Inr [''id'' \<mapsto> PStr (uuid4 e i),
                         ''MEDCode'' \<mapsto> medcode,
                         ''Slot'' \<mapsto> slot,
                         ''Value'' \<mapsto> PStr (py_str v),
                         ''timestamp'' \<mapsto> PStr (utcnow e i)])))"

definition missing_fields_message :: "nat \<Rightarrow> string" where
  "missing_fields_message i =
     ''Record '' @ str_nat i @ '': Missing required fields (MEDCode, Slot, Value)''"

definition exception_message :: "nat \<Rightarrow> error \<Rightarrow> string" where
  "exception_message i x = ''Record '' @ str_nat i @ '': '' @ str_error x"

text \<open>
  One turn of the loop of lines 380 to 401, on the running \<open>uploaded_count\<close>, \<open>errors\<close>
  and state.
\<close>

definition upload_record ::
  "env \<Rightarrow> nat \<Rightarrow> document \<Rightarrow> nat \<times> string list \<times> state \<Rightarrow> nat \<times> string list \<times> state" where
  "upload_record e i record acc =
     (case acc of (uploaded_count, errors, s) \<Rightarrow>
        if \<not> has_required_fields record
        then (uploaded_count, errors @ [missing_fields_message i], s)
        else (case build_document e i record of
                Inl x \<Rightarrow> (uploaded_count, errors @ [exception_message i x], s)
              | Inr document \<Rightarrow>
                  (case create_item e document of
                     Some x \<Rightarrow> (uploaded_count, errors @ [exception_message i x], s)
                   | None \<Rightarrow>
                       (uploaded_count + 1, errors, s\<lparr>stored := stored s @ [document]\<rparr>))))"

fun upload_loop ::
  "env \<Rightarrow> nat \<Rightarrow> document list \<Rightarrow> nat \<times> string list \<times> state \<Rightarrow> nat \<times> string list \<times> state" where
  "upload_loop e i [] acc = acc"
| "upload_loop e i (record # records) acc =
     upload_loop e (Suc i) records (upload_record e i record acc)"

record upload_result =
  uploaded_count :: nat
  total_records :: nat
  errors :: "string list"
  upload_success :: bool
  upload_timestamp :: string

definition upload_medical_records ::
  "env \<Rightarrow> document list \<Rightarrow> state \<Rightarrow> (error + upload_result) \<times> state" where
  "upload_medical_records e records s =
     (case ensure_initialized e s of
        (Some x, s1) \<Rightarrow> (Inl x, s1)
      | (None, s1) \<Rightarrow>
          if \<not> container s1
          then (Inl (RuntimeError ''Cosmos DB container not properly initialized''), s1)
          else (case upload_loop e 0 records (0, [], s1) of
                  (count, errs, s2) \<Rightarrow>
                    (Inr \<lparr>uploaded_count = count, total_records = length records,
                          errors = errs, upload_success = (0 < count),
                          upload_timestamp = utcnow e (length records)\<rparr>, s2)))"

text \<open>
  What the loop does with record \<open>i\<close>, read off \<open>upload_record\<close>: the line appended to
  \<open>errors\<close>, or \<open>None\<close> when the record is uploaded.
\<close>

definition record_error :: "env \<Rightarrow> nat \<Rightarrow> document \<Rightarrow> string option" where
  "record_error e i record =
     (if \<not> has_required_fields record then Some (missing_fields_message i)
      else (case build_document e i record of
              Inl x \<Rightarrow> Some (exception_message i x)
            | Inr document \<Rightarrow> map_option (exception_message i) (create_item e document)))"

section \<open>Test doubles\<close>

text \<open>
  Collaborators for the concrete scenarios: set-up succeeds, the store accepts every
  document, and the completion and query collaborators are the ones given.
\<close>

definition stub_env :: "(string \<Rightarrow> error + string) \<Rightarrow> (string \<Rightarrow> error + document list) \<Rightarrow> env" where
  "stub_env complete query =
     \<lparr>setup_cosmos = None, setup_openai = None, completion = complete,
      query_items = query, create_item = (\<lambda>document. None),
      uuid4 = (\<lambda>i. ''uuid-'' @ str_nat i), utcnow = (\<lambda>i. ''2024-08-02T10:00:00'')\<rparr>"

definition sample_row :: document where
  "sample_row = [''id'' \<mapsto> PStr ''unique-id'', ''MEDCode'' \<mapsto> PInt 1302,
                 ''Slot'' \<mapsto> PInt 150, ''Value'' \<mapsto> PStr ''19928'',
                 ''timestamp'' \<mapsto> PStr ''2024-08-02T10:00:00Z'']"

definition ready_processor :: state where
  "ready_processor =
     \<lparr>initialized = True, container = True, openai_client = True,
      query_log = [], stored = []\<rparr>"

definition failing_store :: "string \<Rightarrow> error + document list" where
  "failing_store sql_query = Inl (ServiceError ''Request rate is large'')"

definition answering_store :: "string \<Rightarrow> error + document list" where
  "answering_store sql_query = Inr [sample_row]"

definition delete_completion :: "string \<Rightarrow> error + string" where
  "delete_completion query = Inr ''DELETE FROM c WHERE c.MEDCode = 1302''"

definition selected_completion :: "string \<Rightarrow> error + string" where
  "selected_completion query = Inr ''SELECTED * FROM c''"

definition select_completion :: "string \<Rightarrow> error + string" where
  "select_completion query = Inr ''SELECT * FROM c WHERE c.MEDCode = 1302''"

definition complete_record :: document where
  "complete_record = [''MEDCode'' \<mapsto> PInt 1302, ''Slot'' \<mapsto> PInt 150, ''Value'' \<mapsto> PInt 19928]"

definition record_without_slot :: document where
  "record_without_slot = [''MEDCode'' \<mapsto> PInt 1303, ''Value'' \<mapsto> PStr ''80'']"

definition record_with_own_id :: document where
  "record_with_own_id =
     [''id'' \<mapsto> PStr ''caller-id'', ''MEDCode'' \<mapsto> PInt 1302, ''Slot'' \<mapsto> PInt 150,
      ''Value'' \<mapsto> PInt 19928, ''timestamp'' \<mapsto> PStr ''1999-01-01T00:00:00'']"

section \<open>Notions used in the proofs\<close>

text \<open>A text is fence-free when the three-backtick fence stands nowhere in it.\<close>

fun fence_free :: "string \<Rightarrow> bool" where
  "fence_free [] = True"
| "fence_free (c # cs) = (\<not> prefix ''```'' (c # cs) \<and> fence_free cs)"

text \<open>
  The states the code can reach: \<open>_initialized\<close> is set only after both clients are.
\<close>

definition consistent :: "state \<Rightarrow> bool" where
  "consistent s = (\<not> initialized s \<or> (container s \<and> openai_client s))"

section \<open>Properties of the sanitizer\<close>

lemma fence_prefix_two: "prefix ''```'' xs \<Longrightarrow> prefix ''``'' xs"
  by (auto simp: prefix_def)

lemma fence_prefix_one: "prefix ''```'' xs \<Longrightarrow> prefix ''`'' xs"
  by (auto simp: prefix_def)

lemma sql_fence_prefix: "prefix ''```sql'' xs \<Longrightarrow> prefix ''```'' xs"
  by (auto simp: prefix_def)

text \<open>
  The first character that \<open>sub_fence\<close> returns is the first character of its input,
  unless the input begins with a fence.
\<close>

lemma sub_fence_head:
  "sub_fence xs = c # r \<Longrightarrow> prefix ''```'' xs \<or> (\<exists>cs. xs = c # cs \<and> r = sub_fence cs)"
  by (cases xs) (auto split: if_splits)

lemma sub_fence_no_prefix:
  assumes "\<not> prefix ''```'' (c # cs)"
  shows "\<not> prefix ''```'' (c # sub_fence cs)"
proof
  assume p: "prefix ''```'' (c # sub_fence cs)"
  then obtain r1 where c: "c = CHR 0x60" and r1: "sub_fence cs = CHR 0x60 # r1"
      and p1: "prefix ''`'' r1"
    by (cases "sub_fence cs") (auto simp: prefix_Cons)
  from p1 obtain r2 where r2: "r1 = CHR 0x60 # r2"
    by (cases r1) auto
  from assms c have n2: "\<not> prefix ''``'' cs" by simp
  with sub_fence_head [OF r1] fence_prefix_two [of cs]
  obtain cs1 where cs1: "cs = CHR 0x60 # cs1" "r1 = sub_fence cs1"
    by blast
  from n2 cs1 have n1: "\<not> prefix ''`'' cs1" by simp
  with sub_fence_head [of cs1 "CHR 0x60" r2] fence_prefix_one [of cs1] cs1 r2
  obtain cs2 where "cs1 = CHR 0x60 # cs2"
    by auto
  with n1 show False by simp
qed

lemma fence_free_sub_fence: "fence_free (sub_fence xs)"
proof (induction xs rule: sub_fence.induct)
  case 1
  show ?case by simp
next
  case (2 c cs)
  show ?case
  proof (cases "prefix ''```'' (c # cs)")
    case True
    from 2(1) [OF True] show ?thesis
      by (simp only: sub_fence.simps True if_True)
  next
    case False
    have "sub_fence (c # cs) = c # sub_fence cs"
      by (simp only: sub_fence.simps False if_False)
    moreover have "fence_free (sub_fence cs)" by (rule 2(2) [OF False])
    ultimately show ?thesis
      using sub_fence_no_prefix [OF False] by (simp only: fence_free.simps) simp
  qed
qed

lemma sub_fence_id: "fence_free xs \<Longrightarrow> sub_fence xs = xs"
  by (induction xs) auto

lemma sub_sql_fence_id: "fence_free xs \<Longrightarrow> sub_sql_fence xs = xs"
proof (induction xs)
  case Nil
  show ?case by simp
next
  case (Cons c cs)
  then have "\<not> prefix ''```sql'' (c # cs)"
    using sql_fence_prefix [of "c # cs"] by auto
  then have "sub_sql_fence (c # cs) = c # sub_sql_fence cs"
    by (simp only: sub_sql_fence.simps if_False)
  with Cons show ?case by simp
qed

lemma fence_free_append: "fence_free (xs @ ys) \<Longrightarrow> fence_free xs \<and> fence_free ys"
  by (induction xs) (auto simp: prefix_Cons)

lemma fence_free_dropWhile: "fence_free xs \<Longrightarrow> fence_free (dropWhile P xs)"
  by (metis fence_free_append takeWhile_dropWhile_id)

lemma rstrip_decomposition:
  "xs = rev (dropWhile P (rev xs)) @ rev (takeWhile P (rev xs))"
  by (metis rev_append rev_rev_ident takeWhile_dropWhile_id)

lemma fence_free_rstrip: "fence_free xs \<Longrightarrow> fence_free (rev (dropWhile P (rev xs)))"
  using rstrip_decomposition [of xs P] fence_free_append by metis

lemma fence_free_strip: "fence_free xs \<Longrightarrow> fence_free (strip xs)"
  by (simp add: strip_def fence_free_dropWhile fence_free_rstrip)

lemma dropWhile_rstrip_aux:
  "ys = [] \<or> \<not> P (hd ys) \<Longrightarrow>
   dropWhile P (rev (dropWhile P (rev ys))) = rev (dropWhile P (rev ys))"
  by (cases ys) (auto simp: dropWhile_append)

lemma dropWhile_rstrip:
  "dropWhile P (rev (dropWhile P (rev (dropWhile P xs)))) =
   rev (dropWhile P (rev (dropWhile P xs)))"
  by (rule dropWhile_rstrip_aux) (use hd_dropWhile [of P xs] in blast)

lemma strip_strip: "strip (strip s) = strip s"
  by (simp add: strip_def dropWhile_rstrip)

lemma fence_free_sanitize: "fence_free (sanitize x)"
  unfolding sanitize_def by (rule fence_free_strip) (rule fence_free_sub_fence)

text \<open>
  Claim C5. The sanitizer is idempotent: sanitizing a sanitized text returns it
  unchanged, for every candidate text. The second substitution leaves no fence behind,
  so on a sanitized text both substitutions and both trims change nothing.
\<close>

theorem sanitize_idempotent: "sanitize (sanitize x) = sanitize x"
proof -
  have "sanitize (sanitize x) = strip (sanitize x)"
    unfolding sanitize_def [of "sanitize x"]
    using fence_free_strip [OF fence_free_sanitize [of x]]
    by (simp add: sub_sql_fence_id sub_fence_id strip_strip)
  also have "\<dots> = sanitize x"
    by (simp add: sanitize_def strip_strip)
  finally show ?thesis .
qed

text \<open>
  Claim C6. The fenced completion text of the specification's scenario, a \<open>sql\<close>-tagged
  fence, a newline, the query, a newline and a closing fence, is sanitized to exactly
  the query: no fence, no language tag, no surrounding whitespace.
\<close>

theorem sanitize_fenced_select:
  "sanitize ''```sql\<newline>SELECT * FROM c WHERE c.MEDCode = 1302\<newline>```'' =
   ''SELECT * FROM c WHERE c.MEDCode = 1302''"
  by (simp add: sanitize_def strip_def isspace_def optional_newline_def)

section \<open>Properties of the read-only guard\<close>

lemma rstrip_prefix: "prefix (rev (dropWhile P (rev xs))) xs"
  using rstrip_decomposition [of xs P] by (metis prefixI)

lemma dropWhile_none: "(\<And>x. x \<in> set xs \<Longrightarrow> \<not> P x) \<Longrightarrow> dropWhile P xs = xs"
  by (cases xs) auto

text \<open>Trimming on the right keeps a leading run of characters that are not trimmed.\<close>

lemma rstrip_keeps_token:
  assumes "\<And>x. x \<in> set t \<Longrightarrow> \<not> P x"
  shows "prefix t (rev (dropWhile P (rev (t @ d))))"
proof (cases "\<forall>x\<in>set d. P x")
  case True
  have "dropWhile P (rev t) = rev t"
    by (rule dropWhile_none) (use assms in simp)
  with True have "dropWhile P (rev (t @ d)) = rev t"
    by (simp add: dropWhile_append)
  then show ?thesis by simp
next
  case False
  then have "dropWhile P (rev (t @ d)) = dropWhile P (rev d) @ rev t"
    by (auto simp: dropWhile_append)
  then show ?thesis by simp
qed

lemma token_prefix_rstrip:
  "prefix (takeWhile (\<lambda>c. \<not> P c) ys) (rev (dropWhile P (rev ys)))"
proof -
  have "prefix (takeWhile (\<lambda>c. \<not> P c) ys)
          (rev (dropWhile P (rev (takeWhile (\<lambda>c. \<not> P c) ys @ dropWhile (\<lambda>c. \<not> P c) ys))))"
    by (rule rstrip_keeps_token) (auto dest: set_takeWhileD)
  then show ?thesis by (simp only: takeWhile_dropWhile_id)
qed

text \<open>
  A word whose letters are the image of no trimmed character is a prefix of the mapped
  text only through the text's leading run of untrimmed characters.
\<close>

lemma upper_prefix_token:
  "prefix p (map f ys) \<Longrightarrow> (\<And>c. P c \<Longrightarrow> f c \<notin> set p) \<Longrightarrow>
   prefix p (map f (takeWhile (\<lambda>c. \<not> P c) ys))"
proof (induction ys arbitrary: p)
  case Nil
  then show ?case by simp
next
  case (Cons y ys)
  show ?case
  proof (cases p)
    case Nil
    then show ?thesis by simp
  next
    case (Cons a p')
    with Cons.prems(1) have a: "a = f y" and p': "prefix p' (map f ys)" by auto
    from Cons.prems(2) [of y] a Cons have ny: "\<not> P y" by auto
    have "prefix p' (map f (takeWhile (\<lambda>c. \<not> P c) ys))"
      by (rule Cons.IH [OF p']) (use Cons.prems(2) Cons in auto)
    with a ny Cons show ?thesis by simp
  qed
qed

lemma upper_char_isspace: "isspace c \<Longrightarrow> upper_char c = c"
  unfolding isspace_def set_simps insert_iff empty_iff
  by (elim disjE) (simp_all add: upper_char_def)

lemma isspace_not_select:
  assumes "isspace c"
  shows "upper_char c \<notin> set ''SELECT''"
proof -
  have "c \<notin> set ''SELECT''"
    using assms unfolding isspace_def set_simps insert_iff empty_iff
    by (elim disjE) simp_all
  then show ?thesis
    by (simp add: upper_char_isspace [OF assms])
qed

text \<open>
  The guard of the code looks at the first six characters behind the leading
  whitespace: it accepts exactly the texts whose first token begins, whatever the case
  of its letters, with \<open>SELECT\<close>.
\<close>

lemma select_guard_token:
  "select_guard s = prefix ''SELECT'' (upper (leading_token s))"
proof
  let ?ys = "dropWhile isspace s"
  assume "select_guard s"
  then have "prefix ''SELECT'' (map upper_char (strip s))"
    unfolding select_guard_def startswith_def upper_def .
  moreover have "prefix (map upper_char (strip s)) (map upper_char ?ys)"
    unfolding strip_def by (rule map_mono_prefix) (rule rstrip_prefix)
  ultimately have "prefix ''SELECT'' (map upper_char ?ys)"
    by (rule prefix_order.trans)
  then have "prefix ''SELECT'' (map upper_char (takeWhile (\<lambda>c. \<not> isspace c) ?ys))"
    by (rule upper_prefix_token) (rule isspace_not_select)
  then show "prefix ''SELECT'' (upper (leading_token s))"
    unfolding upper_def leading_token_def .
next
  assume "prefix ''SELECT'' (upper (leading_token s))"
  then have "prefix ''SELECT'' (map upper_char (leading_token s))"
    unfolding upper_def .
  moreover have "prefix (map upper_char (leading_token s)) (map upper_char (strip s))"
    unfolding strip_def leading_token_def by (rule map_mono_prefix) (rule token_prefix_rstrip)
  ultimately have "prefix ''SELECT'' (map upper_char (strip s))"
    by (rule prefix_order.trans)
  then show "select_guard s"
    unfolding select_guard_def startswith_def upper_def .
qed

lemma spec_guard_select_guard: "spec_guard s \<Longrightarrow> select_guard s"
  unfolding select_guard_token spec_guard_def by simp

section \<open>Properties of initialisation and of the query pipeline\<close>

lemmas text_defs =
  strip_def isspace_def upper_def upper_char_def startswith_def optional_newline_def
  sanitize_def select_guard_def leading_token_def spec_guard_def

lemmas pipeline_defs =
  process_natural_language_query_def generate_sql_query_def execute_query_def
  ensure_initialized_def failure_def stub_env_def new_processor_def ready_processor_def
  failing_store_def answering_store_def delete_completion_def select_completion_def

lemma ensure_initialized_None:
  assumes "ensure_initialized e s = (None, s1)"
  shows "initialized s1" and "query_log s1 = query_log s" and "stored s1 = stored s"
    and "consistent s \<Longrightarrow> container s1 \<and> openai_client s1"
    and "ensure_initialized e s1 = (None, s1)"
  using assms
  by (auto simp: ensure_initialized_def consistent_def Let_def split: if_splits option.splits)

lemma ensure_initialized_consistent:
  "ensure_initialized e s = (r, s1) \<Longrightarrow> consistent s \<Longrightarrow> consistent s1"
  by (auto simp: ensure_initialized_def consistent_def Let_def split: if_splits option.splits)

lemma ensure_initialized_stub:
  "ensure_initialized (stub_env complete query) new_processor = (None, ready_processor)"
  by (simp add: ensure_initialized_def stub_env_def new_processor_def ready_processor_def)

lemma generate_sql_query_Inr:
  assumes "generate_sql_query e q s = (Inr sql, s1)"
  shows "ensure_initialized e s = (None, s1)"
  using assms
  by (auto simp: generate_sql_query_def split: prod.splits option.splits if_splits sum.splits)

lemma execute_query_ready:
  assumes "ensure_initialized e s = (None, s1)" and "container s1"
  shows "execute_query e sql s =
           (if select_guard sql
            then (query_items e sql, s1\<lparr>query_log := query_log s1 @ [sql]\<rparr>)
            else (Inl (ValueError ''Only SELECT queries are allowed''), s1))"
  using assms by (simp add: execute_query_def Let_def split: sum.splits)

text \<open>The test doubles, evaluated once.\<close>

lemma sanitize_select_text:
  "sanitize ''SELECT * FROM c WHERE c.MEDCode = 1302'' = ''SELECT * FROM c WHERE c.MEDCode = 1302''"
  by (simp add: sanitize_def strip_def isspace_def)

lemma sanitize_delete_text:
  "sanitize ''DELETE FROM c WHERE c.MEDCode = 1302'' = ''DELETE FROM c WHERE c.MEDCode = 1302''"
  by (simp add: sanitize_def strip_def isspace_def)

lemma select_text_token:
  "prefix ''SELECT'' (upper (leading_token ''SELECT * FROM c WHERE c.MEDCode = 1302''))"
  by (simp add: leading_token_def isspace_def upper_def upper_char_def)

lemma delete_text_token:
  "\<not> prefix ''SELECT'' (upper (leading_token ''DELETE FROM c WHERE c.MEDCode = 1302''))"
  by (simp add: leading_token_def isspace_def upper_def upper_char_def)

lemma ready_processor_fields:
  "initialized ready_processor" "container ready_processor" "openai_client ready_processor"
  "query_log ready_processor = []" "stored ready_processor = []"
  by (simp_all add: ready_processor_def)

lemma generate_sql_query_stub:
  "generate_sql_query (stub_env complete query) q new_processor =
     (case complete q of
        Inl x \<Rightarrow> (Inl x, ready_processor)
      | Inr content \<Rightarrow> (Inr (sanitize content), ready_processor))"
  by (simp add: generate_sql_query_def ensure_initialized_stub ready_processor_fields)
     (simp add: stub_env_def)

lemma execute_query_stub:
  "execute_query (stub_env complete query) sql ready_processor =
     (if prefix ''SELECT'' (upper (leading_token sql))
      then (query sql, ready_processor\<lparr>query_log := [sql]\<rparr>)
      else (Inl (ValueError ''Only SELECT queries are allowed''), ready_processor))"
proof -
  have "ensure_initialized (stub_env complete query) ready_processor = (None, ready_processor)"
    by (simp add: ensure_initialized_def ready_processor_fields)
  from execute_query_ready [OF this ready_processor_fields(2), of sql] show ?thesis
    by (simp add: select_guard_token ready_processor_fields) (simp add: stub_env_def)
qed

lemma process_stub:
  "process_natural_language_query (stub_env complete query) q new_processor =
     (case complete q of
        Inl x \<Rightarrow> (failure (stub_env complete query) q x, ready_processor)
      | Inr content \<Rightarrow>
          if prefix ''SELECT'' (upper (leading_token (sanitize content)))
          then (case query (sanitize content) of
                  Inl x \<Rightarrow> (failure (stub_env complete query) q x,
                            ready_processor\<lparr>query_log := [sanitize content]\<rparr>)
                | Inr rows \<Rightarrow>
                    (\<lparr>natural_language_query = q, generated_sql = Some (sanitize content),
                      results = Some rows, row_count = length rows, success = True,
                      error = None, timestamp = utcnow (stub_env complete query) 0\<rparr>,
                     ready_processor\<lparr>query_log := [sanitize content]\<rparr>))
          else (failure (stub_env complete query) q
                  (ValueError ''Only SELECT queries are allowed''), ready_processor))"
  by (simp add: process_natural_language_query_def generate_sql_query_stub execute_query_stub
      split: sum.splits)

lemmas stub_eval =
  process_stub generate_sql_query_stub execute_query_stub sanitize_select_text
  sanitize_delete_text select_text_token delete_text_token select_completion_def
  delete_completion_def failing_store_def answering_store_def failure_def

text \<open>
  Claim C1, as stated: the guard accepts a sanitized text exactly when its first
  non-whitespace token is, whatever the case of its letters, the word \<open>SELECT\<close>. The
  code tests a prefix, so it also accepts a longer first token: the sanitized text below
  has the first token \<open>SELECTED\<close>, passes the guard and reaches the data store.
\<close>

theorem guard_accepts_longer_token:
  "sanitize ''SELECTED * FROM c'' = ''SELECTED * FROM c''
   \<and> \<not> spec_guard ''SELECTED * FROM c''
   \<and> select_guard ''SELECTED * FROM c''
   \<and> execute_query (stub_env select_completion answering_store) ''SELECTED * FROM c'' new_processor =
       (Inr [sample_row], ready_processor\<lparr>query_log := [''SELECTED * FROM c'']\<rparr>)"
  by (simp add: text_defs pipeline_defs)

text \<open>
  Claim C1, amended: once initialisation has succeeded and the container is set,
  \<open>execute_query\<close> hands the text to the data store exactly when the first
  non-whitespace token of the text begins, whatever the case of its letters, with
  \<open>SELECT\<close>; it then returns what the store returns. Any other text is rejected with
  the error \<open>Only SELECT queries are allowed\<close> and the store is not called.
\<close>

theorem execute_query_guard:
  assumes "ensure_initialized e s = (None, s1)" and "container s1"
  shows "execute_query e S s =
           (if prefix ''SELECT'' (upper (leading_token S))
            then (query_items e S, s1\<lparr>query_log := query_log s1 @ [S]\<rparr>)
            else (Inl (ValueError ''Only SELECT queries are allowed''), s1))"
  using execute_query_ready [OF assms] by (simp only: select_guard_token)

theorem execute_query_guard_witness:
  "ensure_initialized (stub_env select_completion answering_store) new_processor = (None, ready_processor)
   \<and> container ready_processor
   \<and> execute_query (stub_env select_completion answering_store) ''  select * from c'' new_processor =
       (Inr [sample_row], ready_processor\<lparr>query_log := [''  select * from c'']\<rparr>)
   \<and> execute_query (stub_env select_completion answering_store) ''DROP c'' new_processor =
       (Inl (ValueError ''Only SELECT queries are allowed''), ready_processor)"
proof -
  have i: "ensure_initialized (stub_env select_completion answering_store) new_processor = (None, ready_processor)"
    by (rule ensure_initialized_stub)
  have c: "container ready_processor"
    by (simp add: ready_processor_def)
  from i c execute_query_guard [OF i c, of "''  select * from c''"]
    execute_query_guard [OF i c, of "''DROP c''"]
  show ?thesis
    by (simp add: text_defs stub_env_def answering_store_def ready_processor_def)
qed

text \<open>
  Claim C2, as stated: a call that fails after SQL generation returns the sanitized
  text as \<open>generated_sql\<close>. The \<open>except\<close> branch writes \<open>None\<close> instead: below the
  completion stage yields a sanitized query, the data store then fails, and the
  outcome carries no query text.
\<close>

theorem failure_drops_generated_sql:
  "fst (generate_sql_query (stub_env select_completion failing_store)
          ''Show me all records for MEDCode 1302'' new_processor) =
     Inr ''SELECT * FROM c WHERE c.MEDCode = 1302''
   \<and> success (fst (process_natural_language_query (stub_env select_completion failing_store)
          ''Show me all records for MEDCode 1302'' new_processor)) = False
   \<and> error (fst (process_natural_language_query (stub_env select_completion failing_store)
          ''Show me all records for MEDCode 1302'' new_processor)) = Some ''Request rate is large''
   \<and> generated_sql (fst (process_natural_language_query (stub_env select_completion failing_store)
          ''Show me all records for MEDCode 1302'' new_processor)) = None"
  by (simp add: stub_eval)

text \<open>
  Claim C2, amended: a call that fails at any stage, in SQL generation or, a sanitized
  text existing, at the guard or in execution, returns the outcome of the \<open>except\<close>
  branch for the exception raised: \<open>success\<close> is false, the rows are absent, the row
  count is 0, the error is the text of the exception, and \<open>generated_sql\<close> is absent
  whether or not a sanitized text existed.
\<close>

theorem failure_outcome:
  "(generate_sql_query e q s = (Inl x, s1) \<longrightarrow>
      process_natural_language_query e q s = (failure e q x, s1))
   \<and> (generate_sql_query e q s = (Inr sql, s1) \<and> execute_query e sql s1 = (Inl x, s2) \<longrightarrow>
      process_natural_language_query e q s = (failure e q x, s2))
   \<and> success (failure e q x) = False
   \<and> results (failure e q x) = None
   \<and> row_count (failure e q x) = 0
   \<and> generated_sql (failure e q x) = None
   \<and> error (failure e q x) = Some (str_error x)"
  by (simp add: process_natural_language_query_def failure_def)

theorem failure_outcome_witness:
  "generate_sql_query (stub_env select_completion failing_store) ''all records'' new_processor =
     (Inr ''SELECT * FROM c WHERE c.MEDCode = 1302'', ready_processor)
   \<and> execute_query (stub_env select_completion failing_store)
         ''SELECT * FROM c WHERE c.MEDCode = 1302'' ready_processor =
       (Inl (ServiceError ''Request rate is large''),
        ready_processor\<lparr>query_log := [''SELECT * FROM c WHERE c.MEDCode = 1302'']\<rparr>)
   \<and> process_natural_language_query (stub_env select_completion failing_store)
         ''all records'' new_processor =
       (failure (stub_env select_completion failing_store) ''all records''
          (ServiceError ''Request rate is large''),
        ready_processor\<lparr>query_log := [''SELECT * FROM c WHERE c.MEDCode = 1302'']\<rparr>)"
proof -
  have g: "generate_sql_query (stub_env select_completion failing_store) ''all records'' new_processor =
     (Inr ''SELECT * FROM c WHERE c.MEDCode = 1302'', ready_processor)"
    by (simp add: stub_eval)
  have x: "execute_query (stub_env select_completion failing_store)
         ''SELECT * FROM c WHERE c.MEDCode = 1302'' ready_processor =
       (Inl (ServiceError ''Request rate is large''),
        ready_processor\<lparr>query_log := [''SELECT * FROM c WHERE c.MEDCode = 1302'']\<rparr>)"
    by (simp add: stub_eval)
  from g x failure_outcome [of "stub_env select_completion failing_store" "''all records''"
      new_processor "ServiceError ''Request rate is large''" ready_processor
      "''SELECT * FROM c WHERE c.MEDCode = 1302''"
      "ready_processor\<lparr>query_log := [''SELECT * FROM c WHERE c.MEDCode = 1302'']\<rparr>"]
  show ?thesis by simp
qed

text \<open>
  Claim C3, as stated: whenever the completion stage yields a text that is not a SELECT
  query, the pipeline fails and \<open>container.query_items\<close> is not invoked. The text
  below is not a SELECT query, its first token being \<open>SELECTED\<close>; the guard, a prefix
  test, lets it pass, the text is handed to \<open>container.query_items\<close>, and the outcome
  is a success.
\<close>

theorem longer_token_is_executed:
  "\<not> spec_guard ''SELECTED * FROM c''
   \<and> fst (generate_sql_query (stub_env selected_completion answering_store)
          ''Show the selected records'' new_processor) = Inr ''SELECTED * FROM c''
   \<and> success (fst (process_natural_language_query (stub_env selected_completion answering_store)
          ''Show the selected records'' new_processor)) = True
   \<and> query_log (snd (process_natural_language_query (stub_env selected_completion answering_store)
          ''Show the selected records'' new_processor)) = [''SELECTED * FROM c'']"
proof -
  have s: "sanitize ''SELECTED * FROM c'' = ''SELECTED * FROM c''"
    by (simp add: sanitize_def strip_def isspace_def)
  have t: "upper (leading_token ''SELECTED * FROM c'') = ''SELECTED''"
    by (simp add: leading_token_def isspace_def upper_def upper_char_def)
  show ?thesis
    by (simp add: process_stub generate_sql_query_stub selected_completion_def
        answering_store_def spec_guard_def s t)
qed

text \<open>
  Claim C3, amended: when the completion stage yields a text whose first
  non-whitespace token does not begin, whatever the case of its letters, with
  \<open>SELECT\<close> (a \<open>DELETE\<close> statement, say), the pipeline returns a failed outcome
  whose error is \<open>Only SELECT queries are allowed\<close>, and \<open>container.query_items\<close> is
  not invoked: the log of queries handed to it is the one before the call. The processor
  is in a state the code can reach.
\<close>

theorem non_select_never_executed:
  assumes "consistent s" and "generate_sql_query e q s = (Inr sql, s1)"
    and "\<not> prefix ''SELECT'' (upper (leading_token sql))"
  shows "process_natural_language_query e q s =
           (failure e q (ValueError ''Only SELECT queries are allowed''), s1)
         \<and> success (fst (process_natural_language_query e q s)) = False
         \<and> error (fst (process_natural_language_query e q s)) =
             Some ''Only SELECT queries are allowed''
         \<and> query_log (snd (process_natural_language_query e q s)) = query_log s"
proof -
  have i: "ensure_initialized e s = (None, s1)"
    by (rule generate_sql_query_Inr [OF assms(2)])
  have c: "container s1"
    using ensure_initialized_None(4) [OF i assms(1)] by simp
  have "execute_query e sql s1 = (Inl (ValueError ''Only SELECT queries are allowed''), s1)"
    using execute_query_ready [OF ensure_initialized_None(5) [OF i] c] assms(3)
    by (simp only: select_guard_token if_False)
  then have p: "process_natural_language_query e q s =
           (failure e q (ValueError ''Only SELECT queries are allowed''), s1)"
    using assms(2) by (simp add: process_natural_language_query_def)
  show ?thesis
    unfolding p using ensure_initialized_None(2) [OF i] by (simp add: failure_def)
qed

theorem non_select_never_executed_witness:
  "consistent new_processor
   \<and> generate_sql_query (stub_env delete_completion answering_store)
        ''Delete the records of MEDCode 1302'' new_processor =
       (Inr ''DELETE FROM c WHERE c.MEDCode = 1302'', ready_processor)
   \<and> success (fst (process_natural_language_query (stub_env delete_completion answering_store)
        ''Delete the records of MEDCode 1302'' new_processor)) = False
   \<and> error (fst (process_natural_language_query (stub_env delete_completion answering_store)
        ''Delete the records of MEDCode 1302'' new_processor)) =
       Some ''Only SELECT queries are allowed''
   \<and> query_log (snd (process_natural_language_query (stub_env delete_completion answering_store)
        ''Delete the records of MEDCode 1302'' new_processor)) = []"
proof -
  have c: "consistent new_processor"
    by (simp add: consistent_def new_processor_def)
  have g: "generate_sql_query (stub_env delete_completion answering_store)
        ''Delete the records of MEDCode 1302'' new_processor =
       (Inr ''DELETE FROM c WHERE c.MEDCode = 1302'', ready_processor)"
    by (simp add: stub_eval)
  have t: "\<not> prefix ''SELECT'' (upper (leading_token ''DELETE FROM c WHERE c.MEDCode = 1302''))"
    by (rule delete_text_token)
  have l: "query_log new_processor = []"
    by (simp add: new_processor_def)
  from c g conjunct2 [OF non_select_never_executed [OF c g t]] show ?thesis
    by (simp add: l)
qed

text \<open>
  Claim C4. Every outcome returned by \<open>process_natural_language_query\<close> satisfies both
  invariants: \<open>success\<close> is true exactly when \<open>generated_sql\<close> is present, the error
  is absent and the row count is the length of the rows; and an outcome that is not a
  success has no rows and the row count 0. A successful outcome has its rows.
\<close>

theorem outcome_invariants:
  "(success (fst (process_natural_language_query e q s)) \<longleftrightarrow>
      generated_sql (fst (process_natural_language_query e q s)) \<noteq> None
      \<and> error (fst (process_natural_language_query e q s)) = None
      \<and> row_count (fst (process_natural_language_query e q s)) =
          rows_length (fst (process_natural_language_query e q s)))
   \<and> (\<not> success (fst (process_natural_language_query e q s)) \<longrightarrow>
        results (fst (process_natural_language_query e q s)) = None
        \<and> row_count (fst (process_natural_language_query e q s)) = 0)
   \<and> (success (fst (process_natural_language_query e q s)) \<longrightarrow>
        results (fst (process_natural_language_query e q s)) \<noteq> None)"
  by (simp add: process_natural_language_query_def failure_def rows_length_def
      split: prod.splits sum.splits)

theorem outcome_invariants_witness:
  "success (fst (process_natural_language_query (stub_env select_completion answering_store)
      ''Show me all records for MEDCode 1302'' new_processor))
   \<and> generated_sql (fst (process_natural_language_query (stub_env select_completion answering_store)
      ''Show me all records for MEDCode 1302'' new_processor)) =
       Some ''SELECT * FROM c WHERE c.MEDCode = 1302''
   \<and> results (fst (process_natural_language_query (stub_env select_completion answering_store)
      ''Show me all records for MEDCode 1302'' new_processor)) = Some [sample_row]
   \<and> row_count (fst (process_natural_language_query (stub_env select_completion answering_store)
      ''Show me all records for MEDCode 1302'' new_processor)) = 1
   \<and> error (fst (process_natural_language_query (stub_env select_completion answering_store)
      ''Show me all records for MEDCode 1302'' new_processor)) = None"
proof -
  have "success (fst (process_natural_language_query (stub_env select_completion answering_store)
      ''Show me all records for MEDCode 1302'' new_processor))"
    by (simp add: stub_eval)
  with outcome_invariants [of "stub_env select_completion answering_store"
      "''Show me all records for MEDCode 1302''" new_processor]
  have "error (fst (process_natural_language_query (stub_env select_completion answering_store)
      ''Show me all records for MEDCode 1302'' new_processor)) = None"
    by blast
  then show ?thesis
    by (simp add: stub_eval)
qed

section \<open>Properties of the sample-data limit\<close>

lemma digit_char:
  assumes "k < 10"
  shows "isdigit (''0123456789'' ! k) \<and> digit_value (''0123456789'' ! k) = k
       \<and> \<not> int_space (''0123456789'' ! k)"
proof -
  from assms have "k = 0 \<or> k = 1 \<or> k = 2 \<or> k = 3 \<or> k = 4 \<or> k = 5 \<or> k = 6 \<or> k = 7 \<or> k = 8 \<or> k = 9"
    by arith
  then show ?thesis
    by (elim disjE) (simp_all add: isdigit_def digit_value_def int_space_def)
qed

lemma digits_value_snoc:
  assumes "\<And>c. c \<in> set xs \<Longrightarrow> isdigit c" and "isdigit d"
  shows "digits_value acc (xs @ [d]) =
           map_option (\<lambda>v. v * 10 + digit_value d) (digits_value acc xs)"
  using assms(1)
proof (induction xs arbitrary: acc)
  case Nil
  show ?case using assms(2) by simp
next
  case (Cons x xs)
  then show ?case by simp
qed

lemma str_nat_unfold:
  "n < 10 \<Longrightarrow> str_nat n = [''0123456789'' ! n]"
  "\<not> n < 10 \<Longrightarrow> str_nat n = str_nat (n div 10) @ [''0123456789'' ! (n mod 10)]"
  by (subst str_nat.simps, simp)+

lemma str_nat_digits: "c \<in> set (str_nat n) \<Longrightarrow> isdigit c \<and> \<not> int_space c"
proof (induction n arbitrary: c rule: str_nat.induct)
  case (1 n)
  show ?case
  proof (cases "n < 10")
    case True
    with 1(2) have "c = ''0123456789'' ! n" by (simp add: str_nat_unfold)
    with digit_char [OF True] show ?thesis by simp
  next
    case False
    with 1(2) have "c \<in> set (str_nat (n div 10)) \<or> c = ''0123456789'' ! (n mod 10)"
      by (auto simp: str_nat_unfold)
    then show ?thesis
    proof
      assume "c \<in> set (str_nat (n div 10))"
      then show ?thesis by (rule 1(1) [OF False])
    next
      assume "c = ''0123456789'' ! (n mod 10)"
      with digit_char [of "n mod 10"] show ?thesis by simp
    qed
  qed
qed

lemma str_nat_nonempty: "str_nat n \<noteq> []"
  by (cases "n < 10") (simp_all add: str_nat_unfold)

lemma str_nat_all_digits: "filter isdigit (str_nat n) = str_nat n"
  by (simp add: str_nat_digits)

lemma digits_value_str_nat: "digits_value 0 (str_nat n) = Some n"
proof (induction n rule: str_nat.induct)
  case (1 n)
  show ?case
  proof (cases "n < 10")
    case True
    have "str_nat n = [''0123456789'' ! n]"
      using True by (rule str_nat_unfold)
    with digit_char [OF True] show ?thesis by simp
  next
    case False
    have s: "str_nat n = str_nat (n div 10) @ [''0123456789'' ! (n mod 10)]"
      using False by (rule str_nat_unfold)
    have d: "isdigit (''0123456789'' ! (n mod 10))"
        "digit_value (''0123456789'' ! (n mod 10)) = n mod 10"
      using digit_char [of "n mod 10"] by simp_all
    have "digits_value 0 (str_nat n) =
            map_option (\<lambda>v. v * 10 + n mod 10) (digits_value 0 (str_nat (n div 10)))"
      unfolding s using digits_value_snoc [OF _ d(1), of "str_nat (n div 10)" 0] d(2)
      by (simp add: str_nat_digits)
    with 1 [OF False] show ?thesis by simp
  qed
qed

text \<open>The decimal text of a number is read back, unless it has too many digits.\<close>

lemma unsigned_value_str_nat:
  "unsigned_value m (str_nat n) =
     (if exceeds_digit_limit m (length (str_nat n)) then None else Some n)"
proof -
  obtain c cs where c: "str_nat n = c # cs"
    using str_nat_nonempty [of n] by (cases "str_nat n") auto
  then have d: "isdigit c" using str_nat_digits [of c n] by simp
  have "unsigned_value m (c # cs) =
          (if exceeds_digit_limit m (length (filter isdigit (c # cs))) then None
           else digits_value 0 (c # cs))"
    using d by (simp add: unsigned_value_def)
  then show ?thesis
    unfolding c [symmetric] str_nat_all_digits digits_value_str_nat .
qed

lemma int_strip_no_space:
  assumes "\<And>c. c \<in> set s \<Longrightarrow> \<not> P c"
  shows "rev (dropWhile P (rev (dropWhile P s))) = s"
proof -
  have a: "dropWhile P s = s"
    using assms by (cases s) auto
  have "dropWhile P (rev s) = rev s"
    by (rule dropWhile_none) (use assms in simp)
  with a show ?thesis by simp
qed

lemma str_int_no_space: "c \<in> set (str_int i) \<Longrightarrow> \<not> int_space c"
proof (cases "i < 0")
  case True
  assume "c \<in> set (str_int i)"
  with True have "c = CHR ''-'' \<or> c \<in> set (str_nat (nat (- i)))"
    by (simp add: str_int_def)
  then show ?thesis
  proof
    assume "c = CHR ''-''"
    then show ?thesis by (simp add: int_space_def)
  next
    assume "c \<in> set (str_nat (nat (- i)))"
    then show ?thesis by (simp add: str_nat_digits)
  qed
next
  case False
  assume "c \<in> set (str_int i)"
  with False show ?thesis by (simp add: str_int_def str_nat_digits)
qed

lemma str_nat_no_sign: "str_nat n = c # cs \<Longrightarrow> c \<noteq> CHR ''-'' \<and> c \<noteq> CHR ''+''"
  using str_nat_digits [of c n] by (auto simp: isdigit_def)

lemma py_int_str_int:
  "py_int m (str_int i) =
     (if exceeds_digit_limit m (length (str_nat (nat \<bar>i\<bar>))) then None else Some i)"
proof -
  have st: "rev (dropWhile int_space (rev (dropWhile int_space (str_int i)))) = str_int i"
    by (rule int_strip_no_space) (rule str_int_no_space)
  show ?thesis
  proof (cases "i < 0")
    case True
    then have s: "str_int i = CHR ''-'' # str_nat (nat (- i))"
      by (simp add: str_int_def)
    from True have a: "nat \<bar>i\<bar> = nat (- i)" by simp
    from True show ?thesis
      unfolding py_int_def st a unfolding s by (simp add: unsigned_value_str_nat)
  next
    case False
    obtain c cs where c: "str_nat (nat i) = c # cs"
      using str_nat_nonempty [of "nat i"] by (cases "str_nat (nat i)") auto
    from str_nat_no_sign [OF c] have n: "c \<noteq> CHR ''-''" "c \<noteq> CHR ''+''" by simp_all
    have u: "unsigned_value m (c # cs) =
               (if exceeds_digit_limit m (length (str_nat (nat i))) then None else Some (nat i))"
      using unsigned_value_str_nat [of m "nat i"] c by simp
    from False have a: "nat \<bar>i\<bar> = nat i" by simp
    have s: "str_int i = c # cs" using False c by (simp add: str_int_def)
    from n u False show ?thesis
      unfolding py_int_def st a unfolding s by simp
  qed
qed

lemma str_nat_power_of_ten: "str_nat (10 ^ k) = CHR ''1'' # replicate k (CHR ''0'')"
proof (induction k)
  case 0
  show ?case by (simp add: str_nat_unfold)
next
  case (Suc k)
  have "\<not> (10::nat) ^ Suc k < 10" by simp
  from str_nat_unfold(2) [OF this] Suc show ?case
    by (simp add: replicate_append_same)
qed

lemma py_int_power_of_ten:
  assumes "exceeds_digit_limit m (Suc k)"
  shows "py_int m (str_int (10 ^ k)) = None"
proof -
  have "\<bar>(10::int) ^ k\<bar> = 10 ^ k"
    by simp
  moreover have "nat ((10::int) ^ k) = 10 ^ k"
    by (simp add: nat_power_eq)
  ultimately have "length (str_nat (nat \<bar>(10::int) ^ k\<bar>)) = Suc k"
    by (simp only: str_nat_power_of_ten length_Cons length_replicate)
  with assms show ?thesis
    by (simp only: py_int_str_int if_True)
qed

lemma effective_limit_refused:
  "py_int m text = None \<Longrightarrow> effective_limit m (params(''limit'' \<mapsto> text)) = None"
  by (simp add: effective_limit_def)

lemma short_number_within_limit:
  "length (str_nat n) \<le> 640 \<Longrightarrow> \<not> exceeds_digit_limit m (length (str_nat n))"
  by (simp add: exceeds_digit_limit_def)

lemma py_int_examples:
  "py_int m '' +1_000 '' = Some 1000" "py_int m ''-7'' = Some (- 7)" "py_int m ''1__0'' = None"
  "py_int m [] = None" "py_int m ''ten'' = None" "py_int m [CHR 0x1C, CHR ''5''] = None"
  "py_int m [CHR 0xA0, CHR ''5''] = Some 5"
  by (simp_all add: py_int_def int_space_def unsigned_value_def isdigit_def digit_value_def
      exceeds_digit_limit_def)

lemma py_int_small_texts:
  "py_int m ''0'' = Some 0" "py_int m ''1000'' = Some 1000" "py_int m ''10'' = Some 10"
  by (simp_all add: py_int_def int_space_def unsigned_value_def isdigit_def digit_value_def
      exceeds_digit_limit_def)

text \<open>
  Claim C7, as stated: every requested limit \<open>N\<close> yields an effective limit, \<open>N\<close>
  clamped to the interval from 1 to 100. With the interpreter's limit of 4300 digits,
  the request for \<open>N = 10 ^ 4300\<close>, a text of 4301 digits, yields no limit at all:
  \<open>int\<close> raises and the handler answers with status 500.
\<close>

theorem limit_of_too_many_digits:
  "effective_limit 4300 [''limit'' \<mapsto> str_int (10 ^ 4300)] = None"
proof -
  have "exceeds_digit_limit 4300 (Suc 4300)"
    by (simp add: exceeds_digit_limit_def)
  then have "py_int 4300 (str_int (10 ^ 4300)) = None"
    by (rule py_int_power_of_ten)
  then show ?thesis
    by (rule effective_limit_refused)
qed

text \<open>
  Claim C7, amended: for every request whose limit text \<open>int\<close> reads as an integer
  \<open>N\<close>, the limit handed to the sample fetch is \<open>N\<close> clamped to the interval from 1
  to 100, and a text that \<open>int\<close> refuses gives no limit. \<open>int\<close> reads the decimal text
  of every \<open>N\<close> that is within the interpreter's limit of digits, so such a request
  gets \<open>N\<close> clamped; a request for 0 gives 1, a request for 1000 gives 100, and a
  request without the parameter gives the default 10, whatever the limit of digits.
\<close>

theorem effective_limit_clamped:
  "(py_int m text = Some N \<longrightarrow>
      effective_limit m (params(''limit'' \<mapsto> text)) = Some (min (max N 1) 100))
   \<and> (py_int m text = None \<longrightarrow> effective_limit m (params(''limit'' \<mapsto> text)) = None)
   \<and> (\<not> exceeds_digit_limit m (length (str_nat (nat \<bar>N\<bar>))) \<longrightarrow>
      effective_limit m (params(''limit'' \<mapsto> str_int N)) = Some (min (max N 1) 100))
   \<and> 1 \<le> min (max N 1) 100 \<and> min (max N 1) 100 \<le> 100
   \<and> effective_limit m (params(''limit'' \<mapsto> ''0'')) = Some 1
   \<and> effective_limit m (params(''limit'' \<mapsto> ''1000'')) = Some 100
   \<and> effective_limit m (params(''limit'' := None)) = Some 10"
  by (simp add: effective_limit_def py_int_str_int py_int_small_texts)

theorem effective_limit_clamped_witness:
  "py_int 4300 '' 250 '' = Some 250
   \<and> effective_limit 4300 [''limit'' \<mapsto> '' 250 ''] = Some 100
   \<and> py_int 4300 ''ten'' = None
   \<and> effective_limit 4300 [''limit'' \<mapsto> ''ten''] = None
   \<and> \<not> exceeds_digit_limit 4300 (length (str_nat (nat \<bar>- 5\<bar>)))
   \<and> effective_limit 4300 [''limit'' \<mapsto> str_int (- 5)] = Some 1"
proof -
  have a: "py_int 4300 '' 250 '' = Some 250"
    by (simp add: py_int_def int_space_def unsigned_value_def isdigit_def digit_value_def
        exceeds_digit_limit_def)
  have b: "py_int 4300 ''ten'' = None"
    by (rule py_int_examples)
  have c: "\<not> exceeds_digit_limit 4300 (length (str_nat (nat \<bar>- 5\<bar>)))"
    by (simp add: exceeds_digit_limit_def str_nat_unfold)
  from a b c effective_limit_clamped [of 4300 "'' 250 ''" 250 Map.empty]
    effective_limit_clamped [of 4300 "''ten''" 0 Map.empty]
    effective_limit_clamped [of 4300 "''ten''" "- 5" Map.empty]
  show ?thesis by simp
qed

section \<open>Properties of the upload\<close>

lemma upload_record_uploaded:
  "record_error e i r = None \<Longrightarrow>
   \<exists>d. build_document e i r = Inr d \<and> create_item e d = None \<and>
       upload_record e i r (n, errs, s) = (n + 1, errs, s\<lparr>stored := stored s @ [d]\<rparr>)"
  by (auto simp: upload_record_def record_error_def split: sum.splits option.splits if_splits)

lemma upload_record_rejected:
  "record_error e i r = Some m \<Longrightarrow> upload_record e i r (n, errs, s) = (n, errs @ [m], s)"
  by (auto simp: upload_record_def record_error_def split: sum.splits option.splits if_splits)

lemma upload_record_counts:
  "upload_record e i r (n, errs, s) = (n', errs', s') \<Longrightarrow>
   n' + length errs' = Suc (n + length errs)"
  by (auto simp: upload_record_def split: sum.splits option.splits if_splits)

lemma upload_loop_counts:
  "upload_loop e i rs (n, errs, s) = (n', errs', s') \<Longrightarrow>
   n' + length errs' = n + length errs + length rs"
proof (induction rs arbitrary: i n errs s)
  case Nil
  then show ?case by simp
next
  case (Cons r rs)
  obtain n1 errs1 s1 where u: "upload_record e i r (n, errs, s) = (n1, errs1, s1)"
    by (cases "upload_record e i r (n, errs, s)") auto
  from Cons.prems u have "upload_loop e (Suc i) rs (n1, errs1, s1) = (n', errs', s')" by simp
  from Cons.IH [OF this] upload_record_counts [OF u] show ?case by simp
qed

lemma upload_loop_append:
  "upload_loop e i (xs @ ys) acc = upload_loop e (i + length xs) ys (upload_loop e i xs acc)"
  by (induction xs arbitrary: i acc) auto

lemma upload_loop_all_uploaded:
  assumes "\<And>j. j < length rs \<Longrightarrow> record_error e (i + j) (rs ! j) = None"
  shows "fst (upload_loop e i rs (n, errs, s)) = n + length rs
       \<and> fst (snd (upload_loop e i rs (n, errs, s))) = errs"
  using assms
proof (induction rs arbitrary: i n errs s)
  case Nil
  then show ?case by simp
next
  case (Cons r rs)
  from Cons.prems [of 0] have r: "record_error e i r = None" by simp
  from upload_record_uploaded [OF r, of n errs s]
  obtain s1 where u: "upload_record e i r (n, errs, s) = (n + 1, errs, s1)"
    by blast
  have "\<And>j. j < length rs \<Longrightarrow> record_error e (Suc i + j) (rs ! j) = None"
    using Cons.prems [of "Suc j" for j] by simp
  from Cons.IH [OF this, of "n + 1" errs s1] u show ?case by simp
qed

lemma upload_loop_none_uploaded:
  assumes "\<And>j. j < length rs \<Longrightarrow> record_error e (i + j) (rs ! j) \<noteq> None"
  shows "fst (upload_loop e i rs (n, errs, s)) = n"
  using assms
proof (induction rs arbitrary: i n errs s)
  case Nil
  then show ?case by simp
next
  case (Cons r rs)
  from Cons.prems [of 0] obtain m where r: "record_error e i r = Some m" by auto
  then have u: "upload_record e i r (n, errs, s) = (n, errs @ [m], s)"
    by (rule upload_record_rejected)
  have "\<And>j. j < length rs \<Longrightarrow> record_error e (Suc i + j) (rs ! j) \<noteq> None"
    using Cons.prems [of "Suc j" for j] by simp
  from Cons.IH [OF this, of n "errs @ [m]" s] u show ?case by simp
qed

lemma upload_loop_one_missing:
  assumes k: "k < length rs"
    and bad: "\<not> has_required_fields (rs ! k)"
    and good: "\<And>j. j < length rs \<Longrightarrow> j \<noteq> k \<Longrightarrow> record_error e j (rs ! j) = None"
  shows "fst (upload_loop e 0 rs (0, [], s)) = length rs - 1
       \<and> fst (snd (upload_loop e 0 rs (0, [], s))) = [missing_fields_message k]"
proof -
  let ?pre = "take k rs" and ?post = "drop (Suc k) rs"
  have rs: "rs = ?pre @ [rs ! k] @ ?post"
    using k by (simp add: id_take_nth_drop)
  have lp: "length ?pre = k" using k by simp
  obtain n1 errs1 s1 where a: "upload_loop e 0 ?pre (0, [], s) = (n1, errs1, s1)"
    by (cases "upload_loop e 0 ?pre (0, [], s)") auto
  have "fst (upload_loop e 0 ?pre (0, [], s)) = 0 + length ?pre
      \<and> fst (snd (upload_loop e 0 ?pre (0, [], s))) = []"
    by (rule upload_loop_all_uploaded) (use k good in simp)
  with a lp have a': "n1 = k" "errs1 = []" by simp_all
  have b: "upload_record e k (rs ! k) (n1, errs1, s1) = (k, [missing_fields_message k], s1)"
    using bad a' by (simp add: upload_record_def)
  have c: "fst (upload_loop e (Suc k) ?post (k, [missing_fields_message k], s1)) = k + length ?post
      \<and> fst (snd (upload_loop e (Suc k) ?post (k, [missing_fields_message k], s1))) = [missing_fields_message k]"
    by (rule upload_loop_all_uploaded) (use k good in simp)
  have "upload_loop e 0 rs (0, [], s) = upload_loop e (Suc k) ?post (k, [missing_fields_message k], s1)"
    by (subst rs) (simp add: upload_loop_append a lp b min_absorb2 less_imp_le [OF k]
        del: append_take_drop_id)
  with c k show ?thesis by simp
qed

lemma has_required_fields_iff:
  "has_required_fields r \<longleftrightarrow> r ''MEDCode'' \<noteq> None \<and> r ''Slot'' \<noteq> None \<and> r ''Value'' \<noteq> None"
  by (simp add: has_required_fields_def required_fields_def)

lemma build_document_required:
  "has_required_fields r \<Longrightarrow> \<exists>d. build_document e i r = Inr d"
  by (auto simp: has_required_fields_iff build_document_def getitem_def)

lemma record_error_accepted:
  assumes "has_required_fields r"
    and "\<And>d. build_document e i r = Inr d \<Longrightarrow> create_item e d = None"
  shows "record_error e i r = None"
proof -
  from build_document_required [OF assms(1)] obtain d where d: "build_document e i r = Inr d"
    by blast
  with assms show ?thesis by (simp add: record_error_def)
qed

lemma upload_medical_records_ready:
  assumes "ensure_initialized e s = (None, s1)" and "container s1"
  shows "upload_medical_records e rs s =
           (Inr \<lparr>uploaded_count = fst (upload_loop e 0 rs (0, [], s1)),
                 total_records = length rs,
                 errors = fst (snd (upload_loop e 0 rs (0, [], s1))),
                 upload_success = (0 < fst (upload_loop e 0 rs (0, [], s1))),
                 upload_timestamp = utcnow e (length rs)\<rparr>,
            snd (snd (upload_loop e 0 rs (0, [], s1))))"
  using assms by (simp add: upload_medical_records_def split: prod.splits)

lemmas upload_defs =
  upload_medical_records_def upload_record_def has_required_fields_def required_fields_def
  build_document_def getitem_def missing_fields_message_def exception_message_def
  record_error_def complete_record_def record_without_slot_def record_with_own_id_def

text \<open>
  Claim C8. In a batch where exactly one record lacks a required field and every other
  record has the three fields and is accepted by the store, the upload returns a summary
  with \<open>uploaded_count\<close> one less than \<open>total_records\<close> and exactly one error, the
  line saying that record \<open>k\<close> misses required fields: the records before and after it
  are uploaded all the same. Initialisation has succeeded and the container is set.
\<close>

theorem one_missing_record_reported:
  assumes "ensure_initialized e s = (None, s1)" and "container s1"
    and "k < length rs"
    and "\<not> has_required_fields (rs ! k)"
    and "\<And>j. j < length rs \<Longrightarrow> j \<noteq> k \<Longrightarrow>
           has_required_fields (rs ! j) \<and>
           (\<forall>d. build_document e j (rs ! j) = Inr d \<longrightarrow> create_item e d = None)"
  shows "\<exists>r s2. upload_medical_records e rs s = (Inr r, s2)
           \<and> uploaded_count r = total_records r - 1
           \<and> total_records r = length rs
           \<and> errors r = [missing_fields_message k]"
proof -
  have good: "\<And>j. j < length rs \<Longrightarrow> j \<noteq> k \<Longrightarrow> record_error e j (rs ! j) = None"
    by (rule record_error_accepted) (use assms(5) in blast)+
  from upload_loop_one_missing [OF assms(3) assms(4) good, of s1]
  show ?thesis
    unfolding upload_medical_records_ready [OF assms(1) assms(2)] by simp
qed

theorem one_missing_record_reported_witness:
  "\<not> has_required_fields ([complete_record, record_without_slot, complete_record] ! 1)
   \<and> has_required_fields ([complete_record, record_without_slot, complete_record] ! 0)
   \<and> has_required_fields ([complete_record, record_without_slot, complete_record] ! 2)
   \<and> (\<exists>r s2. upload_medical_records (stub_env select_completion answering_store)
          [complete_record, record_without_slot, complete_record] new_processor = (Inr r, s2)
        \<and> uploaded_count r = 2 \<and> total_records r = 3
        \<and> errors r = [''Record 1: Missing required fields (MEDCode, Slot, Value)''])"
proof -
  let ?e = "stub_env select_completion answering_store"
  let ?rs = "[complete_record, record_without_slot, complete_record]"
  have i: "ensure_initialized ?e new_processor = (None, ready_processor)"
    by (rule ensure_initialized_stub)
  have c: "container ready_processor"
    by (simp add: ready_processor_def)
  have k: "(1::nat) < length ?rs" by simp
  have b: "\<not> has_required_fields (?rs ! 1)"
    by (simp add: upload_defs)
  have h: "has_required_fields complete_record"
    by (simp add: upload_defs)
  have g: "has_required_fields (?rs ! j) \<and>
           (\<forall>d. build_document ?e j (?rs ! j) = Inr d \<longrightarrow> create_item ?e d = None)"
    if "j < length ?rs" "j \<noteq> 1" for j
  proof -
    from that have "j = 0 \<or> j = 2" by auto
    then show ?thesis using h by (auto simp: stub_env_def)
  qed
  have m: "missing_fields_message (Suc 0) =
             ''Record 1: Missing required fields (MEDCode, Slot, Value)''"
    by (simp add: missing_fields_message_def str_nat.simps)
  have h0: "has_required_fields (?rs ! 0)" and h2: "has_required_fields (?rs ! 2)"
    using h by simp_all
  from one_missing_record_reported [OF i c k b g] obtain r s2 where
    r: "upload_medical_records ?e ?rs new_processor = (Inr r, s2)"
      "uploaded_count r = total_records r - 1" "total_records r = length ?rs"
      "errors r = [missing_fields_message 1]"
    by blast
  from r(2-4) have "uploaded_count r = 2" "total_records r = 3"
      "errors r = [''Record 1: Missing required fields (MEDCode, Slot, Value)'']"
    by (simp_all add: m)
  with r(1) b h0 h2 show ?thesis by blast
qed

lemma build_document_Inr:
  assumes "build_document e i r = Inr d"
  shows "\<exists>m sl v. r ''MEDCode'' = Some m \<and> r ''Slot'' = Some sl \<and> r ''Value'' = Some v
           \<and> d = [''id'' \<mapsto> PStr (uuid4 e i), ''MEDCode'' \<mapsto> m, ''Slot'' \<mapsto> sl,
                   ''Value'' \<mapsto> PStr (py_str v), ''timestamp'' \<mapsto> PStr (utcnow e i)]"
proof (cases "r ''MEDCode''")
  case None
  with assms show ?thesis by (simp add: build_document_def getitem_def)
next
  case m: (Some m)
  show ?thesis
  proof (cases "r ''Slot''")
    case None
    with assms m show ?thesis by (simp add: build_document_def getitem_def)
  next
    case sl: (Some sl)
    show ?thesis
    proof (cases "r ''Value''")
      case None
      with assms m sl show ?thesis by (simp add: build_document_def getitem_def)
    next
      case v: (Some v)
      from assms have "d = [''id'' \<mapsto> PStr (uuid4 e i), ''MEDCode'' \<mapsto> m, ''Slot'' \<mapsto> sl,
                   ''Value'' \<mapsto> PStr (py_str v), ''timestamp'' \<mapsto> PStr (utcnow e i)]"
        unfolding build_document_def getitem_def m sl v option.case sum.case
        by (rule sum.inject(2) [THEN iffD1, symmetric])
      with m sl v show ?thesis by blast
    qed
  qed
qed

lemma build_document_fields:
  assumes "build_document e i r = Inr d"
  shows "d ''id'' = Some (PStr (uuid4 e i))"
    and "d ''timestamp'' = Some (PStr (utcnow e i))"
    and "d ''MEDCode'' = r ''MEDCode''"
    and "d ''Slot'' = r ''Slot''"
    and "d ''Value'' = map_option (\<lambda>v. PStr (py_str v)) (r ''Value'')"
proof -
  from build_document_Inr [OF assms] obtain m sl v where
    r: "r ''MEDCode'' = Some m" "r ''Slot'' = Some sl" "r ''Value'' = Some v"
    and d: "d = [''id'' \<mapsto> PStr (uuid4 e i), ''MEDCode'' \<mapsto> m, ''Slot'' \<mapsto> sl,
                 ''Value'' \<mapsto> PStr (py_str v), ''timestamp'' \<mapsto> PStr (utcnow e i)]"
    by blast
  show "d ''id'' = Some (PStr (uuid4 e i))" unfolding d by simp
  show "d ''timestamp'' = Some (PStr (utcnow e i))" unfolding d by simp
  show "d ''MEDCode'' = r ''MEDCode''" unfolding d r by simp
  show "d ''Slot'' = r ''Slot''" unfolding d r by simp
  show "d ''Value'' = map_option (\<lambda>v. PStr (py_str v)) (r ''Value'')" unfolding d r by simp
qed

lemma build_document_dom:
  assumes "build_document e i r = Inr d"
  shows "dom d = {''id'', ''MEDCode'', ''Slot'', ''Value'', ''timestamp''}"
proof -
  from build_document_Inr [OF assms] obtain m sl v where
    d: "d = [''id'' \<mapsto> PStr (uuid4 e i), ''MEDCode'' \<mapsto> m, ''Slot'' \<mapsto> sl,
             ''Value'' \<mapsto> PStr (py_str v), ''timestamp'' \<mapsto> PStr (utcnow e i)]"
    by blast
  have "dom d = {''timestamp'', ''Value'', ''Slot'', ''MEDCode'', ''id''}"
    unfolding d by (simp only: dom_fun_upd dom_empty option.distinct if_False)
  also have "\<dots> = {''id'', ''MEDCode'', ''Slot'', ''Value'', ''timestamp''}"
    by (simp only: insert_commute)
  finally show ?thesis .
qed

lemma getitem_ignores:
  "getitem (r(''id'' \<mapsto> x, ''timestamp'' \<mapsto> y)) ''MEDCode'' = getitem r ''MEDCode''"
  "getitem (r(''id'' \<mapsto> x, ''timestamp'' \<mapsto> y)) ''Slot'' = getitem r ''Slot''"
  "getitem (r(''id'' \<mapsto> x, ''timestamp'' \<mapsto> y)) ''Value'' = getitem r ''Value''"
  by (simp_all add: getitem_def)

lemma build_document_ignores:
  "build_document e i (r(''id'' \<mapsto> x, ''timestamp'' \<mapsto> y)) = build_document e i r"
  by (simp only: build_document_def getitem_ignores)

lemma has_required_fields_ignores:
  "has_required_fields (r(''id'' \<mapsto> x, ''timestamp'' \<mapsto> y)) = has_required_fields r"
  by (simp add: has_required_fields_iff)

lemma upload_record_ignores:
  "upload_record e i (r(''id'' \<mapsto> x, ''timestamp'' \<mapsto> y)) acc = upload_record e i r acc"
  by (simp only: upload_record_def build_document_ignores has_required_fields_ignores)

text \<open>
  Claim C9. When the loop accepts a record (the count of uploads goes up by one), the
  document stored for it has the identifier drawn from \<open>uuid4\<close> and the timestamp read
  from the clock while the record is handled, its \<open>MEDCode\<close> and \<open>Slot\<close> are the
  record's, its \<open>Value\<close> is the text of the record's \<open>Value\<close>, and it has these five
  keys only. An \<open>id\<close> or \<open>timestamp\<close> that the caller puts into the record changes
  nothing in what the loop does.
\<close>

theorem stored_document_fields:
  assumes "upload_record e i r (n, errs, s) = (Suc n, errs', s')"
  shows "\<exists>d. stored s' = stored s @ [d]
           \<and> d ''id'' = Some (PStr (uuid4 e i))
           \<and> d ''timestamp'' = Some (PStr (utcnow e i))
           \<and> d ''MEDCode'' = r ''MEDCode''
           \<and> d ''Slot'' = r ''Slot''
           \<and> d ''Value'' = map_option (\<lambda>v. PStr (py_str v)) (r ''Value'')
           \<and> dom d = {''id'', ''MEDCode'', ''Slot'', ''Value'', ''timestamp''}
           \<and> upload_record e i (r(''id'' \<mapsto> x, ''timestamp'' \<mapsto> y)) (n, errs, s) = (Suc n, errs', s')"
proof -
  from assms obtain d where d: "build_document e i r = Inr d"
    and s': "s' = s\<lparr>stored := stored s @ [d]\<rparr>"
    by (auto simp: upload_record_def split: if_splits sum.splits option.splits)
  have "stored s' = stored s @ [d]"
    unfolding s' by simp
  moreover have "upload_record e i (r(''id'' \<mapsto> x, ''timestamp'' \<mapsto> y)) (n, errs, s) =
      (Suc n, errs', s')"
    using assms by (simp only: upload_record_ignores)
  ultimately show ?thesis
    using build_document_fields [OF d] build_document_dom [OF d] by blast
qed

theorem stored_document_fields_witness:
  "\<exists>d errs. upload_record (stub_env select_completion answering_store) 0 record_with_own_id
        (0, [], ready_processor) = (Suc 0, errs, ready_processor\<lparr>stored := [d]\<rparr>)
      \<and> d ''id'' = Some (PStr ''uuid-0'')
      \<and> d ''timestamp'' = Some (PStr ''2024-08-02T10:00:00'')
      \<and> d ''MEDCode'' = Some (PInt 1302)
      \<and> d ''Slot'' = Some (PInt 150)
      \<and> d ''Value'' = Some (PStr ''19928'')"
proof -
  let ?e = "stub_env select_completion answering_store"
  obtain d where d: "build_document ?e 0 record_with_own_id = Inr d"
    using build_document_required [of record_with_own_id ?e 0]
    by (auto simp: has_required_fields_def required_fields_def record_with_own_id_def)
  have u: "upload_record ?e 0 record_with_own_id (0, [], ready_processor) =
             (Suc 0, [], ready_processor\<lparr>stored := stored ready_processor @ [d]\<rparr>)"
    using d by (simp add: upload_record_def has_required_fields_def required_fields_def
        record_with_own_id_def stub_env_def)
  have s: "stored ready_processor = []"
    by (simp add: ready_processor_def)
  have v: "str_int 19928 = ''19928''" "str_nat 0 = ''0''"
    by (simp_all add: str_int_def str_nat.simps)
  from stored_document_fields [OF u] obtain d' where
    d': "stored (ready_processor\<lparr>stored := stored ready_processor @ [d]\<rparr>) = stored ready_processor @ [d']"
      "d' ''id'' = Some (PStr (uuid4 ?e 0))"
      "d' ''timestamp'' = Some (PStr (utcnow ?e 0))"
      "d' ''MEDCode'' = record_with_own_id ''MEDCode''"
      "d' ''Slot'' = record_with_own_id ''Slot''"
      "d' ''Value'' = map_option (\<lambda>v. PStr (py_str v)) (record_with_own_id ''Value'')"
    by blast
  from d'(1) have e: "d' = d" by simp
  have u': "upload_record ?e 0 record_with_own_id (0, [], ready_processor) =
             (Suc 0, [], ready_processor\<lparr>stored := [d]\<rparr>)"
    using u s by simp
  have f: "d ''id'' = Some (PStr ''uuid-0'')"
      "d ''timestamp'' = Some (PStr ''2024-08-02T10:00:00'')"
      "d ''MEDCode'' = Some (PInt 1302)"
      "d ''Slot'' = Some (PInt 150)"
      "d ''Value'' = Some (PStr ''19928'')"
    using d'(2-6) v unfolding e by (simp_all add: record_with_own_id_def stub_env_def)
  from u' f show ?thesis by blast
qed

text \<open>
  Claim C10. The summary returned by the upload reports \<open>success\<close> exactly when
  \<open>uploaded_count\<close> is positive. It always carries \<open>total_records\<close>, the length of the
  batch, and one error line for each record that was not uploaded. An empty batch gives
  \<open>success = False\<close> with no error; a batch in which every record lacks a required
  field or is refused by the store gives \<open>success = False\<close> with one error line for
  each record. Initialisation has succeeded and the container is set.
\<close>

theorem upload_success_iff:
  assumes "ensure_initialized e s = (None, s1)" and "container s1"
  shows "\<exists>r s2. upload_medical_records e rs s = (Inr r, s2)
           \<and> (upload_success r \<longleftrightarrow> 0 < uploaded_count r)
           \<and> total_records r = length rs
           \<and> uploaded_count r + length (errors r) = length rs
           \<and> (rs = [] \<longrightarrow> \<not> upload_success r \<and> errors r = [])
           \<and> ((\<forall>j<length rs. \<not> has_required_fields (rs ! j)
                   \<or> (\<exists>d x. build_document e j (rs ! j) = Inr d \<and> create_item e d = Some x))
                \<longrightarrow> \<not> upload_success r \<and> length (errors r) = length rs)"
proof -
  obtain n errs s2 where l: "upload_loop e 0 rs (0, [], s1) = (n, errs, s2)"
    by (cases "upload_loop e 0 rs (0, [], s1)") auto
  from upload_loop_counts [OF l] have cnt: "n + length errs = length rs" by simp
  have none: "n = 0"
    if "\<forall>j<length rs. \<not> has_required_fields (rs ! j)
          \<or> (\<exists>d x. build_document e j (rs ! j) = Inr d \<and> create_item e d = Some x)"
  proof -
    have "\<And>j. j < length rs \<Longrightarrow> record_error e (0 + j) (rs ! j) \<noteq> None"
      using that by (auto simp: record_error_def)
    from upload_loop_none_uploaded [OF this, of 0 "[]" s1] l show ?thesis by simp
  qed
  have empty: "rs = [] \<Longrightarrow> n = 0 \<and> errs = []"
    using l by auto
  show ?thesis
    unfolding upload_medical_records_ready [OF assms] l
    using cnt none empty by auto
qed

theorem upload_success_iff_witness:
  "\<exists>r s2. upload_medical_records (stub_env select_completion answering_store)
        [record_without_slot, record_without_slot] new_processor = (Inr r, s2)
      \<and> upload_success r = False \<and> uploaded_count r = 0 \<and> total_records r = 2
      \<and> length (errors r) = 2"
proof -
  let ?e = "stub_env select_completion answering_store"
  let ?rs = "[record_without_slot, record_without_slot]"
  have i: "ensure_initialized ?e new_processor = (None, ready_processor)"
    by (rule ensure_initialized_stub)
  have c: "container ready_processor"
    by (simp add: ready_processor_def)
  have b: "\<not> has_required_fields record_without_slot"
    by (simp add: upload_defs)
  have a: "\<forall>j<length ?rs. \<not> has_required_fields (?rs ! j)
             \<or> (\<exists>d x. build_document ?e j (?rs ! j) = Inr d \<and> create_item ?e d = Some x)"
    using b by (simp add: nth_Cons split: nat.splits)
  from upload_success_iff [OF i c, of ?rs] a show ?thesis
    by auto
qed

end
